theory Spec2Isabelle
  imports Complex_Main "HOL-Library.AList"
begin

section \<open>Data model (types.ts and the classes of the service layer)\<close>

text \<open>
  Amounts and balances are JavaScript numbers. They are modelled as reals, so \<open>+\<close>, \<open>-\<close>
  and \<open>*\<close> below are exact where the code's operations round to the nearest double; NaN
  and the infinities are outside the model. The properties therefore state a balance
  as the expression the code computes it by (one addition or subtraction per call), and
  none of them relies on two operations cancelling: in doubles \<open>(b + a) - a\<close> need not
  be \<open>b\<close>, and a running total need not be the sum of its terms.
\<close>

datatype AccountType = SAVINGS | CHECKING

text \<open>The string union of \<^verbatim>\<open>Transaction['type']\<close>.\<close>

datatype TransactionType = DEPOSIT | WITHDRAW | TRANSFER_IN | TRANSFER_OUT | INTEREST

text \<open>
  A \<^verbatim>\<open>Transaction\<close>. The source's field \<^verbatim>\<open>type\<close> is \<open>tx_type\<close> here. The fields
  \<^verbatim>\<open>id\<close> (a fresh \<^verbatim>\<open>uuidv4()\<close>) and \<^verbatim>\<open>timestamp\<close> (\<^verbatim>\<open>new Date()\<close>) are values handed
  in by the environment that no code of the service layer reads; they are left out.
\<close>

record Transaction =
  accountId :: string
  tx_type :: TransactionType
  amount :: real
  description :: string

text \<open>
  The two interest strategies. \<^verbatim>\<open>SavingsInterestStrategy\<close> has one private field,
  \<^verbatim>\<open>rate\<close>, always initialised to 0.03.
\<close>

datatype InterestStrategy = SavingsInterestStrategy | CheckingInterestStrategy

definition rate :: real where
  "rate = 0.03"

fun calculateInterest :: "InterestStrategy \<Rightarrow> real \<Rightarrow> real" where
  "calculateInterest SavingsInterestStrategy balance = balance * rate"
| "calculateInterest CheckingInterestStrategy balance = 0"

text \<open>
  A \<^verbatim>\<open>BankAccount\<close> object. The source's fields \<^verbatim>\<open>id\<close> and \<^verbatim>\<open>type\<close> are \<open>acc_id\<close> and
  \<open>acc_type\<close> here.
\<close>

record BankAccount =
  acc_id :: string
  name :: string
  acc_type :: AccountType
  balance :: real
  interestStrategy :: InterestStrategy
  transactions :: "Transaction list"

text \<open>
  The three \<^verbatim>\<open>throw new Error(...)\<close> sites of \<^verbatim>\<open>BankAccount\<close>, one constructor per
  message:
  \<^item> \<open>DepositNotPositive\<close>: "Deposit amount must be positive";
  \<^item> \<open>WithdrawNotPositive\<close>: "Withdraw amount must be positive";
  \<^item> \<open>InsufficientFunds b a\<close>: "Insufficient funds. Balance: b, Requested: a".
\<close>

datatype error = DepositNotPositive | WithdrawNotPositive | InsufficientFunds real real

text \<open>
  A method that may throw returns a pair: \<open>None\<close> when it returned normally, \<open>Some e\<close>
  when it threw \<open>e\<close>, and in both cases the object's state at the moment control left
  the method (an exception rolls nothing back).
\<close>

type_synonym 's outcome = "error option \<times> 's"

section \<open>BankAccount\<close>

text \<open>The constructor; \<open>uid\<close> is the value \<^verbatim>\<open>uuidv4()\<close> returned.\<close>

definition BankAccount_new :: "string \<Rightarrow> string \<Rightarrow> AccountType \<Rightarrow> real \<Rightarrow> BankAccount" where
  "BankAccount_new uid nm ty initialBalance =
     \<lparr>acc_id = uid, name = nm, acc_type = ty, balance = initialBalance,
      interestStrategy =
        (if ty = SAVINGS then SavingsInterestStrategy else CheckingInterestStrategy),
      transactions = []\<rparr>"

definition addTransaction :: "TransactionType \<Rightarrow> real \<Rightarrow> string \<Rightarrow> BankAccount \<Rightarrow> BankAccount" where
  "addTransaction ty amt descr acc =
     acc\<lparr>transactions := transactions acc @
       [\<lparr>accountId = acc_id acc, tx_type = ty, amount = amt, description = descr\<rparr>]\<rparr>"

definition deposit :: "real \<Rightarrow> string \<Rightarrow> BankAccount \<Rightarrow> BankAccount outcome" where
  "deposit amt descr acc =
     (if amt \<le> 0 then (Some DepositNotPositive, acc)
      else (None, addTransaction DEPOSIT amt descr (acc\<lparr>balance := balance acc + amt\<rparr>)))"

definition withdraw :: "real \<Rightarrow> string \<Rightarrow> BankAccount \<Rightarrow> BankAccount outcome" where
  "withdraw amt descr acc =
     (if amt \<le> 0 then (Some WithdrawNotPositive, acc)
      else if amt > balance acc then (Some (InsufficientFunds (balance acc) amt), acc)
      else (None, addTransaction WITHDRAW amt descr (acc\<lparr>balance := balance acc - amt\<rparr>)))"

text \<open>\<^verbatim>\<open>applyInterest\<close> returns the interest it computed, credited or not.\<close>

definition applyInterest :: "BankAccount \<Rightarrow> real \<times> BankAccount" where
  "applyInterest acc =
     (let interest = calculateInterest (interestStrategy acc) (balance acc)
      in if interest > 0
         then (interest,
               addTransaction INTEREST interest ''Interest Credited''
                 (acc\<lparr>balance := balance acc + interest\<rparr>))
         else (interest, acc))"

definition forceBalanceChange :: "real \<Rightarrow> BankAccount \<Rightarrow> BankAccount" where
  "forceBalanceChange amt acc = acc\<lparr>balance := balance acc + amt\<rparr>"

section \<open>Commands\<close>

text \<open>
  Commands hold references to \<^verbatim>\<open>BankAccount\<close> objects, and two references may be to one
  object. Objects live in a store indexed by reference; a method call on a reference
  replaces the object there by the state the method left.
\<close>

type_synonym ref = nat

type_synonym store = "ref \<Rightarrow> BankAccount"

definition call :: "ref \<Rightarrow> (BankAccount \<Rightarrow> BankAccount outcome) \<Rightarrow> store \<Rightarrow> store outcome" where
  "call r m h = (case m (h r) of (e, acc') \<Rightarrow> (e, h(r := acc')))"

text \<open>\<open>DepositCommand account amount\<close>, \<open>WithdrawCommand account amount\<close> and
  \<open>TransferCommand fromAccount toAccount amount\<close>: the three implementers of
  \<^verbatim>\<open>BankCommand\<close>, with their constructor arguments.\<close>

datatype BankCommand =
    DepositCommand ref real
  | WithdrawCommand ref real
  | TransferCommand ref ref real

text \<open>\<^verbatim>\<open>execute()\<close>. In a transfer the second statement runs only when the first did not
  throw.\<close>

fun execute :: "BankCommand \<Rightarrow> store \<Rightarrow> store outcome" where
  "execute (DepositCommand account amt) h = call account (deposit amt ''Deposit'') h"
| "execute (WithdrawCommand account amt) h = call account (withdraw amt ''Withdraw'') h"
| "execute (TransferCommand fromAccount toAccount amt) h =
     (case call fromAccount (withdraw amt (''Transfer to '' @ name (h toAccount))) h of
        (Some e, h1) \<Rightarrow> (Some e, h1)
      | (None, h1) \<Rightarrow>
          call toAccount (deposit amt (''Transfer from '' @ name (h1 fromAccount))) h1)"

text \<open>\<^verbatim>\<open>undo()\<close>.\<close>

fun undo :: "BankCommand \<Rightarrow> store \<Rightarrow> store outcome" where
  "undo (DepositCommand account amt) h =
     call account (withdraw amt ''UNDO: Revert Deposit'') h"
| "undo (WithdrawCommand account amt) h =
     call account (deposit amt ''UNDO: Revert Withdraw'') h"
| "undo (TransferCommand fromAccount toAccount amt) h =
     (case call toAccount
             (withdraw amt (''UNDO: Revert Transfer from '' @ name (h fromAccount))) h of
        (Some e, h1) \<Rightarrow> (Some e, h1)
      | (None, h1) \<Rightarrow>
          call fromAccount
            (deposit amt (''UNDO: Revert Transfer to '' @ name (h1 toAccount))) h1)"

section \<open>BankInvoker\<close>

text \<open>
  The state of the program: the store of account objects with its allocation pointer
  (\<^verbatim>\<open>new BankAccount\<close> takes the next free reference), and the two fields of the one
  \<^verbatim>\<open>BankInvoker\<close>. \<open>accounts\<close> is the \<^verbatim>\<open>Map<string, BankAccount>\<close>: an association
  list in insertion order, where \<^verbatim>\<open>set\<close> on a key already present replaces its value in
  place (\<open>AList.update\<close>). \<open>history\<close> is the array used as a stack, top last.
\<close>

record world =
  objs :: store
  nxt :: ref
  accounts :: "(string \<times> ref) list"
  history :: "BankCommand list"

text \<open>\<open>uid\<close> is the \<^verbatim>\<open>uuidv4()\<close> the constructor draws. The returned value is the new
  account.\<close>

definition createAccount :: "string \<Rightarrow> string \<Rightarrow> AccountType \<Rightarrow> real \<Rightarrow> world \<Rightarrow> ref \<times> world" where
  "createAccount uid nm ty initialBalance s =
     (let account = nxt s;
          s1 = s\<lparr>objs := (objs s)(account := BankAccount_new uid nm ty initialBalance),
                 nxt := Suc (nxt s)\<rparr>
      in (account, s1\<lparr>accounts := AList.update (acc_id (objs s1 account)) account (accounts s1)\<rparr>))"

text \<open>\<^verbatim>\<open>executeCommand\<close>: the \<^verbatim>\<open>catch\<close> block logs and rethrows.\<close>

definition executeCommand :: "BankCommand \<Rightarrow> world \<Rightarrow> world outcome" where
  "executeCommand command s =
     (case execute command (objs s) of
        (None, h) \<Rightarrow> (None, s\<lparr>objs := h, history := history s @ [command]\<rparr>)
      | (Some e, h) \<Rightarrow> (Some e, s\<lparr>objs := h\<rparr>))"

text \<open>\<^verbatim>\<open>undoLastCommand\<close>: \<^verbatim>\<open>pop()\<close> on an empty array returns \<^verbatim>\<open>undefined\<close>, which the
  \<^verbatim>\<open>if (command)\<close> skips; a command object is always truthy.\<close>

definition undoLastCommand :: "world \<Rightarrow> world outcome" where
  "undoLastCommand s =
     (if history s = [] then (None, s)
      else
        let command = last (history s);
            s1 = s\<lparr>history := butlast (history s)\<rparr>
        in case undo command (objs s1) of
             (None, h) \<Rightarrow> (None, s1\<lparr>objs := h\<rparr>)
           | (Some e, h) \<Rightarrow> (Some e, s1\<lparr>objs := h, history := history s1 @ [command]\<rparr>))"

text \<open>\<^verbatim>\<open>applyInterestToAll\<close>: \<^verbatim>\<open>forEach\<close> over the map's values, in insertion order; the
  interest each call returns is dropped.\<close>

definition applyInterestToAll :: "world \<Rightarrow> world" where
  "applyInterestToAll s =
     s\<lparr>objs := fold (\<lambda>acc h. h(acc := snd (applyInterest (h acc))))
                  (map snd (accounts s)) (objs s)\<rparr>"

section \<open>Derived notions used by the properties\<close>

text \<open>
  The amount of a transaction signed by its kind: withdraw and transfer-out negative,
  every other kind positive. This is the sign the transaction list of the user
  interface prints (\<^verbatim>\<open>t.type === 'WITHDRAW' || t.type === 'TRANSFER_OUT' ? '-' : '+'\<close>).
\<close>

definition signedAmount :: "Transaction \<Rightarrow> real" where
  "signedAmount t =
     (if tx_type t = WITHDRAW \<or> tx_type t = TRANSFER_OUT then - amount t else amount t)"

definition signedSum :: "Transaction list \<Rightarrow> real" where
  "signedSum ts = sum_list (map signedAmount ts)"

text \<open>
  The running total of a log from an opening balance: each recorded amount is applied
  to the total so far, in log order, by the one operation its kind stands for
  (subtraction for withdraw and transfer-out, addition for every other kind).
\<close>

definition applyTransaction :: "real \<Rightarrow> Transaction \<Rightarrow> real" where
  "applyTransaction b t =
     (if tx_type t = WITHDRAW \<or> tx_type t = TRANSFER_OUT then b - amount t else b + amount t)"

definition runningBalance :: "real \<Rightarrow> Transaction list \<Rightarrow> real" where
  "runningBalance b0 ts = foldl applyTransaction b0 ts"

text \<open>
  The states an account object can be in when it was constructed with initial balance
  \<open>b0\<close> and has since received calls of \<^verbatim>\<open>deposit\<close>, \<^verbatim>\<open>withdraw\<close> and \<^verbatim>\<open>applyInterest\<close>
  (throwing or not). These are the only methods the commands and the invoker call;
  \<^verbatim>\<open>forceBalanceChange\<close> has no caller.
\<close>

inductive account_state :: "real \<Rightarrow> BankAccount \<Rightarrow> bool" where
  constructed: "account_state b0 (BankAccount_new uid nm ty b0)"
| deposited: "account_state b0 acc \<Longrightarrow> account_state b0 (snd (deposit amt descr acc))"
| withdrawn: "account_state b0 acc \<Longrightarrow> account_state b0 (snd (withdraw amt descr acc))"
| accrued: "account_state b0 acc \<Longrightarrow> account_state b0 (snd (applyInterest acc))"

text \<open>
  \<open>evolves acc acc'\<close>: the state \<open>acc'\<close> comes from the state \<open>acc\<close> of the same object by
  a sequence of calls of \<^verbatim>\<open>deposit\<close>, \<^verbatim>\<open>withdraw\<close> and \<^verbatim>\<open>applyInterest\<close>.
\<close>

inductive evolves :: "BankAccount \<Rightarrow> BankAccount \<Rightarrow> bool" where
  same: "evolves acc acc"
| deposit: "evolves acc acc' \<Longrightarrow> evolves acc (snd (deposit amt descr acc'))"
| withdraw: "evolves acc acc' \<Longrightarrow> evolves acc (snd (withdraw amt descr acc'))"
| applyInterest: "evolves acc acc' \<Longrightarrow> evolves acc (snd (applyInterest acc'))"

text \<open>
  The states of the program reachable through the methods of \<^verbatim>\<open>BankInvoker\<close>, from a
  fresh invoker: no account allocated or registered, empty history.
\<close>

inductive reachable :: "world \<Rightarrow> bool" where
  fresh: "nxt s = 0 \<Longrightarrow> accounts s = [] \<Longrightarrow> history s = [] \<Longrightarrow> reachable s"
| created: "reachable s \<Longrightarrow> reachable (snd (createAccount uid nm ty initialBalance s))"
| executed: "reachable s \<Longrightarrow> reachable (snd (executeCommand command s))"
| undone: "reachable s \<Longrightarrow> reachable (snd (undoLastCommand s))"
| interest_applied: "reachable s \<Longrightarrow> reachable (applyInterestToAll s)"

text \<open>
  A run of the program: the calls a client makes on the invoker, one after the other.
  \<open>perform\<close> gives the state a call leaves, whether it returned or threw; \<open>run\<close>
  performs a list of calls from a state. \<open>openings\<close> lists the initial balances of
  the accounts a run opens, in the order of their creation, which is the order of their
  references when the run starts from a fresh invoker.
\<close>

datatype invoker_call =
    CreateAccount string string AccountType real
  | ExecuteCommand BankCommand
  | UndoLastCommand
  | ApplyInterestToAll

fun perform :: "invoker_call \<Rightarrow> world \<Rightarrow> world" where
  "perform (CreateAccount uid nm ty initialBalance) s =
     snd (createAccount uid nm ty initialBalance s)"
| "perform (ExecuteCommand command) s = snd (executeCommand command s)"
| "perform UndoLastCommand s = snd (undoLastCommand s)"
| "perform ApplyInterestToAll s = applyInterestToAll s"

definition run :: "invoker_call list \<Rightarrow> world \<Rightarrow> world" where
  "run calls s = foldl (\<lambda>s' c. perform c s') s calls"

fun openings :: "invoker_call list \<Rightarrow> real list" where
  "openings [] = []"
| "openings (CreateAccount uid nm ty initialBalance # calls) = initialBalance # openings calls"
| "openings (_ # calls) = openings calls"

text \<open>
  \<open>appends_only ks acc acc'\<close>: the log of \<open>acc'\<close> is the log of \<open>acc\<close> followed by
  transactions whose kinds are all in \<open>ks\<close>.
\<close>

definition appends_only :: "TransactionType list \<Rightarrow> BankAccount \<Rightarrow> BankAccount \<Rightarrow> bool" where
  "appends_only ks acc acc' =
     (take (length (transactions acc)) (transactions acc') = transactions acc \<and>
      list_all (\<lambda>t. tx_type t \<in> set ks)
        (drop (length (transactions acc)) (transactions acc')))"

definition no_transfer_kind :: "BankAccount \<Rightarrow> bool" where
  "no_transfer_kind acc =
     list_all (\<lambda>t. tx_type t \<noteq> TRANSFER_IN \<and> tx_type t \<noteq> TRANSFER_OUT) (transactions acc)"

section \<open>Example states\<close>

text \<open>A fresh invoker; the store cells not yet allocated hold a placeholder.\<close>

definition world0 :: world where
  "world0 = \<lparr>objs = (\<lambda>_. BankAccount_new [] [] CHECKING 0), nxt = 0, accounts = [],
             history = []\<rparr>"

text \<open>The accounts of the spec's example: A (checking, 500) and B (savings, 1000).\<close>

definition worldAB :: world where
  "worldAB = snd (createAccount ''u-b'' ''B'' SAVINGS 1000
               (snd (createAccount ''u-a'' ''A'' CHECKING 500 world0)))"

text \<open>One account opened with a negative balance, which nothing forbids.\<close>

definition worldNeg :: world where
  "worldNeg = snd (createAccount ''u-n'' ''N'' CHECKING (-5) world0)"

definition accA :: BankAccount where
  "accA = BankAccount_new ''u-a'' ''A'' CHECKING 500"

text \<open>
  A run from a fresh invoker: open A and B, deposit 200 into A, try to withdraw 800 from
  A (which throws, A holding 700), transfer 300 from A to B, accrue interest.
\<close>

definition callsAB :: "invoker_call list" where
  "callsAB =
     [CreateAccount ''u-a'' ''A'' CHECKING 500,
      CreateAccount ''u-b'' ''B'' SAVINGS 1000,
      ExecuteCommand (DepositCommand 0 200),
      ExecuteCommand (WithdrawCommand 0 800),
      ExecuteCommand (TransferCommand 0 1 300),
      ApplyInterestToAll]"

section \<open>Basic facts about the methods\<close>

lemma withdraw_cases:
  "withdraw amt d acc =
     (if amt \<le> 0 then (Some WithdrawNotPositive, acc)
      else if amt > balance acc then (Some (InsufficientFunds (balance acc) amt), acc)
      else (None, acc\<lparr>balance := balance acc - amt,
                       transactions := transactions acc @
                         [\<lparr>accountId = acc_id acc, tx_type = WITHDRAW, amount = amt, description = d\<rparr>]\<rparr>))"
  by (simp add: withdraw_def addTransaction_def)

lemma deposit_cases:
  "deposit amt d acc =
     (if amt \<le> 0 then (Some DepositNotPositive, acc)
      else (None, acc\<lparr>balance := balance acc + amt,
                       transactions := transactions acc @
                         [\<lparr>accountId = acc_id acc, tx_type = DEPOSIT, amount = amt, description = d\<rparr>]\<rparr>))"
  by (simp add: deposit_def addTransaction_def)

lemma withdraw_fails_unchanged: "fst (withdraw amt d acc) = Some e \<Longrightarrow> snd (withdraw amt d acc) = acc"
  by (simp add: withdraw_cases split: if_splits)

lemma deposit_fails_unchanged: "fst (deposit amt d acc) = Some e \<Longrightarrow> snd (deposit amt d acc) = acc"
  by (simp add: deposit_cases split: if_splits)

lemma execute_fails_unchanged: "fst (execute c h) = Some e \<Longrightarrow> snd (execute c h) = h"
proof (cases c)
  case (DepositCommand r a)
  then show "fst (execute c h) = Some e \<Longrightarrow> snd (execute c h) = h"
    by (auto simp: call_def deposit_cases split: if_splits)
next
  case (WithdrawCommand r a)
  then show "fst (execute c h) = Some e \<Longrightarrow> snd (execute c h) = h"
    by (auto simp: call_def withdraw_cases split: if_splits)
next
  case (TransferCommand f t a)
  then show "fst (execute c h) = Some e \<Longrightarrow> snd (execute c h) = h"
    by (auto simp: call_def withdraw_cases deposit_cases split: if_splits)
qed

lemma undo_fails_unchanged: "fst (undo c h) = Some e \<Longrightarrow> snd (undo c h) = h"
proof (cases c)
  case (DepositCommand r a)
  then show "fst (undo c h) = Some e \<Longrightarrow> snd (undo c h) = h"
    by (auto simp: call_def withdraw_cases split: if_splits)
next
  case (WithdrawCommand r a)
  then show "fst (undo c h) = Some e \<Longrightarrow> snd (undo c h) = h"
    by (auto simp: call_def deposit_cases split: if_splits)
next
  case (TransferCommand f t a)
  then show "fst (undo c h) = Some e \<Longrightarrow> snd (undo c h) = h"
    by (auto simp: call_def withdraw_cases deposit_cases split: if_splits)
qed

lemma executeCommand_cases:
  "executeCommand c s =
    (case fst (execute c (objs s)) of
       None \<Rightarrow> (None, s\<lparr>objs := snd (execute c (objs s)), history := history s @ [c]\<rparr>)
     | Some e \<Rightarrow> (Some e, s))"
proof (cases "execute c (objs s)")
  case (Pair r h)
  show ?thesis
  proof (cases r)
    case None
    with Pair show ?thesis by (simp add: executeCommand_def)
  next
    case (Some e)
    with Pair have "fst (execute c (objs s)) = Some e" by simp
    from execute_fails_unchanged [OF this] Pair Some show ?thesis
      by (simp add: executeCommand_def)
  qed
qed

lemma undoLastCommand_cases:
  "undoLastCommand s =
    (if history s = [] then (None, s)
     else case fst (undo (last (history s)) (objs s)) of
       None \<Rightarrow> (None, s\<lparr>objs := snd (undo (last (history s)) (objs s)),
                        history := butlast (history s)\<rparr>)
     | Some e \<Rightarrow> (Some e, s))"
proof (cases "history s = []")
  case True
  then show ?thesis by (simp add: undoLastCommand_def)
next
  case ne: False
  obtain r h where Pair: "undo (last (history s)) (objs s) = (r, h)"
    by (cases "undo (last (history s)) (objs s)")
  show ?thesis
  proof (cases r)
    case None
    with Pair ne show ?thesis by (simp add: undoLastCommand_def Let_def)
  next
    case (Some e)
    with Pair have "fst (undo (last (history s)) (objs s)) = Some e" by simp
    from undo_fails_unchanged [OF this] Pair Some ne show ?thesis
      by (simp add: undoLastCommand_def Let_def)
  qed
qed

lemma reachable_world0: "reachable world0"
  by (rule reachable.fresh) (simp_all add: world0_def)

lemma reachable_worldAB: "reachable worldAB"
  unfolding worldAB_def by (intro reachable.created reachable_world0)

lemma reachable_worldNeg: "reachable worldNeg"
  unfolding worldNeg_def by (intro reachable.created reachable_world0)

lemma worldAB_simps:
  "objs worldAB 0 = accA"
  "objs worldAB (Suc 0) = BankAccount_new ''u-b'' ''B'' SAVINGS 1000"
  "nxt worldAB = 2"
  "accounts worldAB = [(''u-a'', 0), (''u-b'', 1)]"
  "history worldAB = []"
  by (simp_all add: worldAB_def world0_def createAccount_def Let_def accA_def BankAccount_new_def)

lemma worldNeg_simps:
  "objs worldNeg 0 = BankAccount_new ''u-n'' ''N'' CHECKING (-5)"
  "nxt worldNeg = 1"
  "accounts worldNeg = [(''u-n'', 0)]"
  "history worldNeg = []"
  by (simp_all add: worldNeg_def world0_def createAccount_def Let_def BankAccount_new_def)

lemma applyInterest_cases:
  "applyInterest acc =
     (if calculateInterest (interestStrategy acc) (balance acc) > 0
      then (calculateInterest (interestStrategy acc) (balance acc),
            acc\<lparr>balance := balance acc + calculateInterest (interestStrategy acc) (balance acc),
                transactions := transactions acc @
                  [\<lparr>accountId = acc_id acc, tx_type = INTEREST,
                    amount = calculateInterest (interestStrategy acc) (balance acc),
                    description = ''Interest Credited''\<rparr>]\<rparr>)
      else (calculateInterest (interestStrategy acc) (balance acc), acc))"
  by (simp add: applyInterest_def Let_def addTransaction_def)

lemma call_deposit_evolves:
  "evolves acc (h r) \<Longrightarrow> evolves acc (snd (call account (deposit amt d) h) r)"
  by (cases "deposit amt d (h account)")
    (auto simp: call_def dest: evolves.deposit [where amt = amt and descr = d])

lemma call_withdraw_evolves:
  "evolves acc (h r) \<Longrightarrow> evolves acc (snd (call account (withdraw amt d) h) r)"
  by (cases "withdraw amt d (h account)")
    (auto simp: call_def dest: evolves.withdraw [where amt = amt and descr = d])

lemma execute_evolves: "evolves (h r) (snd (execute c h) r)"
proof (cases c)
  case (DepositCommand account amt)
  then show ?thesis by (simp add: call_deposit_evolves evolves.same)
next
  case (WithdrawCommand account amt)
  then show ?thesis by (simp add: call_withdraw_evolves evolves.same)
next
  case (TransferCommand f t amt)
  obtain e1 h1 where w: "call f (withdraw amt (''Transfer to '' @ name (h t))) h = (e1, h1)"
    by (cases "call f (withdraw amt (''Transfer to '' @ name (h t))) h")
  have "evolves (h r) (snd (call f (withdraw amt (''Transfer to '' @ name (h t))) h) r)"
    by (rule call_withdraw_evolves) (rule evolves.same)
  with w have h1: "evolves (h r) (h1 r)" by simp
  show ?thesis
  proof (cases e1)
    case None
    with w TransferCommand have "execute c h =
        call t (deposit amt (''Transfer from '' @ name (h1 f))) h1"
      by simp
    then show ?thesis
      using call_deposit_evolves [where h = h1 and r = r and acc = "h r"] h1 by simp
  next
    case (Some e)
    with w TransferCommand have "execute c h = (Some e, h1)" by simp
    then show ?thesis using h1 by simp
  qed
qed

lemma undo_evolves: "evolves (h r) (snd (undo c h) r)"
proof (cases c)
  case (DepositCommand account amt)
  then show ?thesis by (simp add: call_withdraw_evolves evolves.same)
next
  case (WithdrawCommand account amt)
  then show ?thesis by (simp add: call_deposit_evolves evolves.same)
next
  case (TransferCommand f t amt)
  obtain e1 h1 where
    w: "call t (withdraw amt (''UNDO: Revert Transfer from '' @ name (h f))) h = (e1, h1)"
    by (cases "call t (withdraw amt (''UNDO: Revert Transfer from '' @ name (h f))) h")
  have "evolves (h r)
      (snd (call t (withdraw amt (''UNDO: Revert Transfer from '' @ name (h f))) h) r)"
    by (rule call_withdraw_evolves) (rule evolves.same)
  with w have h1: "evolves (h r) (h1 r)" by simp
  show ?thesis
  proof (cases e1)
    case None
    with w TransferCommand have "undo c h =
        call f (deposit amt (''UNDO: Revert Transfer to '' @ name (h1 t))) h1"
      by simp
    then show ?thesis
      using call_deposit_evolves [where h = h1 and r = r and acc = "h r"] h1 by simp
  next
    case (Some e)
    with w TransferCommand have "undo c h = (Some e, h1)" by simp
    then show ?thesis using h1 by simp
  qed
qed

lemma interest_fold_evolves:
  "evolves acc (h r) \<Longrightarrow>
     evolves acc (fold (\<lambda>a h. h(a := snd (applyInterest (h a)))) rs h r)"
proof (induction rs arbitrary: h)
  case Nil
  then show ?case by simp
next
  case (Cons a rs)
  let ?h = "h(a := snd (applyInterest (h a)))"
  from Cons.prems have "evolves acc (?h r)"
    by (auto intro: evolves.applyInterest)
  then have "evolves acc (fold (\<lambda>a h. h(a := snd (applyInterest (h a)))) rs ?h r)"
    by (rule Cons.IH)
  then show ?case by (simp only: fold_simps)
qed

lemma executeCommand_evolves: "evolves (objs s r) (objs (snd (executeCommand c s)) r)"
  using execute_evolves [of "objs s" r c]
  by (simp add: executeCommand_cases evolves.same split: option.splits)

lemma undoLastCommand_evolves: "evolves (objs s r) (objs (snd (undoLastCommand s)) r)"
  using undo_evolves [of "objs s" r "last (history s)"]
  by (simp add: undoLastCommand_cases evolves.same split: option.splits)

lemma applyInterestToAll_evolves: "evolves (objs s r) (objs (applyInterestToAll s) r)"
  by (simp add: applyInterestToAll_def interest_fold_evolves evolves.same)

lemma evolves_account_state:
  "evolves acc acc' \<Longrightarrow> account_state b0 acc \<Longrightarrow> account_state b0 acc'"
  by (induction rule: evolves.induct) (auto intro: account_state.intros)

lemma nxt_simps:
  "nxt (snd (createAccount uid nm ty b s)) = Suc (nxt s)"
  "nxt (snd (executeCommand c s)) = nxt s"
  "nxt (snd (undoLastCommand s)) = nxt s"
  "nxt (applyInterestToAll s) = nxt s"
  by (simp_all add: createAccount_def Let_def executeCommand_cases undoLastCommand_cases
      applyInterestToAll_def split: option.splits)

lemma objs_createAccount:
  "objs (snd (createAccount uid nm ty b s)) =
     (objs s)(nxt s := BankAccount_new uid nm ty b)"
  by (simp add: createAccount_def Let_def)

lemma reachable_account_state:
  "reachable s \<Longrightarrow> r < nxt s \<Longrightarrow> \<exists>b0. account_state b0 (objs s r)"
proof (induction arbitrary: r rule: reachable.induct)
  case (fresh s)
  then show ?case by simp
next
  case (created s uid nm ty initialBalance)
  show ?case
  proof (cases "r = nxt s")
    case True
    then show ?thesis
      by (auto simp: objs_createAccount intro: account_state.constructed)
  next
    case False
    with created.prems have "r < nxt s" by (simp add: nxt_simps)
    from created.IH [OF this] False show ?thesis by (simp add: objs_createAccount)
  qed
next
  case (executed s command)
  then obtain b0 where "account_state b0 (objs s r)" by (auto simp: nxt_simps)
  with executeCommand_evolves show ?case by (blast intro: evolves_account_state)
next
  case (undone s)
  then obtain b0 where "account_state b0 (objs s r)" by (auto simp: nxt_simps)
  with undoLastCommand_evolves show ?case by (blast intro: evolves_account_state)
next
  case (interest_applied s)
  then obtain b0 where "account_state b0 (objs s r)" by (auto simp: nxt_simps)
  with applyInterestToAll_evolves show ?case by (blast intro: evolves_account_state)
qed

lemma fold_update_distinct:
  "distinct rs \<Longrightarrow>
     fold (\<lambda>a h. h(a := f (h a))) rs h = (\<lambda>r. if r \<in> set rs then f (h r) else h r)"
proof (induction rs arbitrary: h)
  case Nil
  then show ?case by simp
next
  case (Cons a rs)
  let ?h = "h(a := f (h a))"
  from Cons.prems have d: "distinct rs" and a: "a \<notin> set rs" by simp_all
  have "fold (\<lambda>a h. h(a := f (h a))) (a # rs) h = fold (\<lambda>a h. h(a := f (h a))) rs ?h"
    by (simp only: fold_simps)
  also have "\<dots> = (\<lambda>r. if r \<in> set rs then f (?h r) else ?h r)"
    by (rule Cons.IH [OF d])
  also have "\<dots> = (\<lambda>r. if r \<in> set (a # rs) then f (h r) else h r)"
    using a by (auto simp: fun_eq_iff)
  finally show ?case .
qed

lemma applyInterestToAll_objs:
  "distinct (map snd (accounts s)) \<Longrightarrow>
     objs (applyInterestToAll s) r =
       (if r \<in> snd ` set (accounts s) then snd (applyInterest (objs s r)) else objs s r)"
  using fold_update_distinct [of "map snd (accounts s)" "\<lambda>acc. snd (applyInterest acc)" "objs s"]
  by (simp add: applyInterestToAll_def)

lemma update_values:
  "snd ` set (AList.update k v al) \<subseteq> insert v (snd ` set al)"
  by (induction al) auto

lemma update_values_distinct:
  "distinct (map snd al) \<Longrightarrow> v \<notin> snd ` set al \<Longrightarrow> distinct (map snd (AList.update k v al))"
proof (induction al)
  case Nil
  then show ?case by simp
next
  case (Cons p al)
  then show ?case using update_values [of k v al] by (auto simp: image_iff)
qed

lemma accounts_simps:
  "accounts (snd (createAccount uid nm ty b s)) = AList.update uid (nxt s) (accounts s)"
  "accounts (snd (executeCommand c s)) = accounts s"
  "accounts (snd (undoLastCommand s)) = accounts s"
  "accounts (applyInterestToAll s) = accounts s"
  by (simp_all add: createAccount_def Let_def BankAccount_new_def executeCommand_cases
      undoLastCommand_cases applyInterestToAll_def split: option.splits)

text \<open>
  In every reachable state the registry holds each account object once, and only
  allocated ones.
\<close>

lemma reachable_registry:
  "reachable s \<Longrightarrow> distinct (map snd (accounts s)) \<and> (\<forall>r \<in> snd ` set (accounts s). r < nxt s)"
proof (induction rule: reachable.induct)
  case (fresh s)
  then show ?case by simp
next
  case (created s uid nm ty initialBalance)
  then have d: "distinct (map snd (accounts s))" and b: "\<forall>r \<in> snd ` set (accounts s). r < nxt s"
    by simp_all
  from b have "nxt s \<notin> snd ` set (accounts s)" by auto
  with d have "distinct (map snd (AList.update uid (nxt s) (accounts s)))"
    by (rule update_values_distinct)
  moreover have "\<forall>r \<in> snd ` set (AList.update uid (nxt s) (accounts s)). r < Suc (nxt s)"
    using update_values [of uid "nxt s" "accounts s"] b by fastforce
  ultimately show ?case by (simp add: accounts_simps nxt_simps)
qed (simp_all add: accounts_simps nxt_simps)

lemma account_state_strategy:
  "account_state b0 acc \<Longrightarrow>
     interestStrategy acc =
       (if acc_type acc = SAVINGS then SavingsInterestStrategy else CheckingInterestStrategy)"
  by (induction rule: account_state.induct)
    (simp_all add: BankAccount_new_def deposit_cases withdraw_cases applyInterest_cases)

lemma appends_only_iff:
  "appends_only ks acc acc' \<longleftrightarrow>
     (\<exists>new. transactions acc' = transactions acc @ new \<and> (\<forall>t \<in> set new. tx_type t \<in> set ks))"
proof
  assume a: "appends_only ks acc acc'"
  let ?n = "length (transactions acc)"
  have "transactions acc' = take ?n (transactions acc') @ drop ?n (transactions acc')"
    by simp
  with a have "transactions acc' = transactions acc @ drop ?n (transactions acc')"
    by (simp add: appends_only_def)
  moreover from a have "\<forall>t \<in> set (drop ?n (transactions acc')). tx_type t \<in> set ks"
    by (simp add: appends_only_def list_all_iff)
  ultimately show "\<exists>new. transactions acc' = transactions acc @ new \<and>
      (\<forall>t \<in> set new. tx_type t \<in> set ks)"
    by blast
next
  assume "\<exists>new. transactions acc' = transactions acc @ new \<and> (\<forall>t \<in> set new. tx_type t \<in> set ks)"
  then show "appends_only ks acc acc'"
    by (auto simp: appends_only_def list_all_iff)
qed

lemma evolves_appends_only:
  "evolves acc acc' \<Longrightarrow> appends_only [DEPOSIT, WITHDRAW, INTEREST] acc acc'"
proof (induction rule: evolves.induct)
  case (same acc)
  show ?case by (simp add: appends_only_def)
next
  case (deposit acc acc' amt descr)
  then show ?case by (auto simp: appends_only_iff deposit_cases)
next
  case (withdraw acc acc' amt descr)
  then show ?case by (auto simp: appends_only_iff withdraw_cases)
next
  case (applyInterest acc acc')
  then show ?case by (auto simp: appends_only_iff applyInterest_cases)
qed

lemma account_state_no_transfer_kind: "account_state b0 acc \<Longrightarrow> no_transfer_kind acc"
  by (induction rule: account_state.induct)
    (simp_all add: no_transfer_kind_def BankAccount_new_def deposit_cases withdraw_cases
      applyInterest_cases)

text \<open>
  The spec's worked example: A (checking, 500) and B (savings, 1000); deposit 200 into A,
  transfer 300 from A to B, undo, undo.
\<close>

lemma spec_example:
  "balance (objs (snd (executeCommand (DepositCommand 0 200) worldAB)) 0) = 700"
  "balance (objs (snd (executeCommand (TransferCommand 0 1 300)
     (snd (executeCommand (DepositCommand 0 200) worldAB)))) 0) = 400"
  "balance (objs (snd (executeCommand (TransferCommand 0 1 300)
     (snd (executeCommand (DepositCommand 0 200) worldAB)))) 1) = 1300"
  "balance (objs (snd (undoLastCommand (snd (executeCommand (TransferCommand 0 1 300)
     (snd (executeCommand (DepositCommand 0 200) worldAB)))))) 0) = 700"
  "balance (objs (snd (undoLastCommand (snd (executeCommand (TransferCommand 0 1 300)
     (snd (executeCommand (DepositCommand 0 200) worldAB)))))) 1) = 1000"
  "balance (objs (snd (undoLastCommand (snd (undoLastCommand
     (snd (executeCommand (TransferCommand 0 1 300)
     (snd (executeCommand (DepositCommand 0 200) worldAB)))))))) 0) = 500"
  by (simp_all add: executeCommand_def undoLastCommand_def call_def deposit_cases
      withdraw_cases Let_def worldAB_simps accA_def BankAccount_new_def)

text \<open>
  Runs: a run is performed call by call, and the states it reaches are the reachable
  ones.
\<close>

lemma run_Nil: "run [] s = s"
  by (simp add: run_def)

lemma run_snoc: "run (calls @ [c]) s = perform c (run calls s)"
  by (simp add: run_def)

lemma openings_snoc:
  "openings (calls @ [c]) =
     openings calls @ (case c of CreateAccount uid nm ty b \<Rightarrow> [b] | _ \<Rightarrow> [])"
  by (induction calls rule: openings.induct) (auto split: invoker_call.splits)

lemma reachable_run: "reachable s \<Longrightarrow> reachable (run calls s)"
proof (induction calls rule: rev_induct)
  case Nil
  then show ?case by (simp add: run_Nil)
next
  case (snoc x calls)
  then have "reachable (run calls s)" by simp
  then have "reachable (perform x (run calls s))"
    by (cases x) (auto intro: reachable.intros)
  then show ?case by (simp add: run_snoc)
qed

lemma reachable_is_run:
  "reachable s \<Longrightarrow>
     \<exists>s0 calls. nxt s0 = 0 \<and> accounts s0 = [] \<and> history s0 = [] \<and> s = run calls s0"
proof (induction rule: reachable.induct)
  case (fresh s)
  then have "nxt s = 0 \<and> accounts s = [] \<and> history s = [] \<and> s = run [] s"
    by (simp add: run_Nil)
  then show ?case by blast
next
  case (created s uid nm ty initialBalance)
  then obtain s0 calls where f: "nxt s0 = 0" "accounts s0 = []" "history s0 = []"
    and s: "s = run calls s0" by blast
  from s have "snd (createAccount uid nm ty initialBalance s) =
      run (calls @ [CreateAccount uid nm ty initialBalance]) s0"
    by (simp add: run_snoc)
  with f show ?case by blast
next
  case (executed s command)
  then obtain s0 calls where f: "nxt s0 = 0" "accounts s0 = []" "history s0 = []"
    and s: "s = run calls s0" by blast
  from s have "snd (executeCommand command s) = run (calls @ [ExecuteCommand command]) s0"
    by (simp add: run_snoc)
  with f show ?case by blast
next
  case (undone s)
  then obtain s0 calls where f: "nxt s0 = 0" "accounts s0 = []" "history s0 = []"
    and s: "s = run calls s0" by blast
  from s have "snd (undoLastCommand s) = run (calls @ [UndoLastCommand]) s0"
    by (simp add: run_snoc)
  with f show ?case by blast
next
  case (interest_applied s)
  then obtain s0 calls where f: "nxt s0 = 0" "accounts s0 = []" "history s0 = []"
    and s: "s = run calls s0" by blast
  from s have "applyInterestToAll s = run (calls @ [ApplyInterestToAll]) s0"
    by (simp add: run_snoc)
  with f show ?case by blast
qed

lemma nxt_run: "nxt (run calls s0) = nxt s0 + length (openings calls)"
proof (induction calls rule: rev_induct)
  case Nil
  show ?case by (simp add: run_Nil)
next
  case (snoc x calls)
  then show ?case by (cases x) (simp_all add: run_snoc openings_snoc nxt_simps)
qed

text \<open>
  A call changes the history by at most one push, and only \<^verbatim>\<open>executeCommand\<close> of a
  command whose \<^verbatim>\<open>execute\<close> returned pushes. So a command on the history of a run was
  pushed by a call of the run that succeeded, in the state the run had then reached.
\<close>

lemma history_perform:
  "set (history (perform c s)) \<subseteq>
     set (history s) \<union>
     (case c of ExecuteCommand command \<Rightarrow>
        (if fst (executeCommand command s) = None then {command} else {}) | _ \<Rightarrow> {})"
proof (cases c)
  case (CreateAccount uid nm ty b)
  then show ?thesis by (simp add: createAccount_def Let_def)
next
  case (ExecuteCommand command)
  then show ?thesis by (auto simp: executeCommand_cases split: option.splits)
next
  case UndoLastCommand
  then show ?thesis
    by (auto simp: undoLastCommand_cases split: option.splits dest: in_set_butlastD)
next
  case ApplyInterestToAll
  then show ?thesis by (simp add: applyInterestToAll_def)
qed

lemma history_run:
  "c \<in> set (history (run calls s0)) \<Longrightarrow>
     c \<in> set (history s0) \<or>
     (\<exists>pre post. calls = pre @ ExecuteCommand c # post \<and>
        fst (executeCommand c (run pre s0)) = None)"
proof (induction calls arbitrary: c rule: rev_induct)
  case Nil
  then show ?case by (simp add: run_Nil)
next
  case (snoc x calls)
  let ?s = "run calls s0"
  from snoc.prems have c: "c \<in> set (history (perform x ?s))" by (simp add: run_snoc)
  show ?case
  proof (cases "c \<in> set (history ?s)")
    case True
    from snoc.IH [OF True] show ?thesis
    proof
      assume "c \<in> set (history s0)"
      then show ?thesis ..
    next
      assume "\<exists>pre post. calls = pre @ ExecuteCommand c # post \<and>
        fst (executeCommand c (run pre s0)) = None"
      then obtain pre post where "calls = pre @ ExecuteCommand c # post"
        and ok: "fst (executeCommand c (run pre s0)) = None" by blast
      then have "calls @ [x] = pre @ ExecuteCommand c # (post @ [x])" by simp
      with ok show ?thesis by blast
    qed
  next
    case False
    with c history_perform [of x ?s] have "x = ExecuteCommand c \<and> fst (executeCommand c ?s) = None"
      by (cases x) (auto split: if_splits)
    then have "calls @ [x] = calls @ ExecuteCommand c # []" "fst (executeCommand c (run calls s0)) = None"
      by simp_all
    then show ?thesis by blast
  qed
qed

text \<open>
  The account with reference \<open>r\<close> of a run from a fresh invoker is the \<open>r\<close>-th account
  the run opened, in a state reached from its construction with the initial balance
  that call gave.
\<close>

lemma run_account_state:
  "nxt s0 = 0 \<Longrightarrow> r < length (openings calls) \<Longrightarrow>
     account_state (openings calls ! r) (objs (run calls s0) r)"
proof (induction calls arbitrary: r rule: rev_induct)
  case Nil
  then show ?case by simp
next
  case (snoc x calls)
  let ?s = "run calls s0"
  have n: "nxt ?s = length (openings calls)" using snoc.prems(1) by (simp add: nxt_run)
  show ?case
  proof (cases x)
    case (CreateAccount uid nm ty b)
    show ?thesis
    proof (cases "r < length (openings calls)")
      case True
      with snoc.IH [OF snoc.prems(1) True] n CreateAccount show ?thesis
        by (simp add: run_snoc openings_snoc objs_createAccount nth_append)
    next
      case False
      with snoc.prems(2) CreateAccount have "r = length (openings calls)"
        by (simp add: openings_snoc)
      with n CreateAccount show ?thesis
        by (simp add: run_snoc openings_snoc objs_createAccount nth_append
            account_state.constructed)
    qed
  next
    case (ExecuteCommand command)
    with snoc.prems(2) have r: "r < length (openings calls)" by (simp add: openings_snoc)
    from snoc.IH [OF snoc.prems(1) r] executeCommand_evolves [of ?s r command]
    have "account_state (openings calls ! r) (objs (snd (executeCommand command ?s)) r)"
      by (blast intro: evolves_account_state)
    with ExecuteCommand show ?thesis by (simp add: run_snoc openings_snoc)
  next
    case UndoLastCommand
    with snoc.prems(2) have r: "r < length (openings calls)" by (simp add: openings_snoc)
    from snoc.IH [OF snoc.prems(1) r] undoLastCommand_evolves [of ?s r]
    have "account_state (openings calls ! r) (objs (snd (undoLastCommand ?s)) r)"
      by (blast intro: evolves_account_state)
    with UndoLastCommand show ?thesis by (simp add: run_snoc openings_snoc)
  next
    case ApplyInterestToAll
    with snoc.prems(2) have r: "r < length (openings calls)" by (simp add: openings_snoc)
    from snoc.IH [OF snoc.prems(1) r] applyInterestToAll_evolves [of ?s r]
    have "account_state (openings calls ! r) (objs (applyInterestToAll ?s) r)"
      by (blast intro: evolves_account_state)
    with ApplyInterestToAll show ?thesis by (simp add: run_snoc openings_snoc)
  qed
qed

lemma account_state_running:
  "account_state b0 acc \<Longrightarrow> balance acc = runningBalance b0 (transactions acc)"
proof (induction rule: account_state.induct)
  case (constructed b0 uid nm ty)
  show ?case by (simp add: BankAccount_new_def runningBalance_def)
next
  case (deposited b0 acc amt descr)
  then show ?case
    by (simp add: deposit_cases runningBalance_def applyTransaction_def)
next
  case (withdrawn b0 acc amt descr)
  then show ?case
    by (simp add: withdraw_cases runningBalance_def applyTransaction_def)
next
  case (accrued b0 acc)
  then show ?case
    by (simp add: applyInterest_cases runningBalance_def applyTransaction_def)
qed

text \<open>
  In exact arithmetic the running total is the opening balance plus the signed sum of
  the log. This is the one fact here that rests on the laws of exact addition; with the
  code's rounded operations it holds up to rounding only, and no claim below uses it.
\<close>

lemma runningBalance_exact: "runningBalance b0 ts = b0 + signedSum ts"
  by (induction ts rule: rev_induct)
    (simp_all add: runningBalance_def signedSum_def applyTransaction_def signedAmount_def)

text \<open>
  The example run: the withdrawal of 800 throws on a balance of 700 and is not on the
  history; the deposit and the transfer are.
\<close>

lemma callsAB_run:
  "history (run callsAB world0) = [DepositCommand 0 200, TransferCommand 0 1 300]"
  "balance (objs (run callsAB world0) 0) = 400"
  "balance (objs (run callsAB world0) (Suc 0)) = 1339"
  "map tx_type (transactions (objs (run callsAB world0) 0)) = [DEPOSIT, WITHDRAW]"
  "map amount (transactions (objs (run callsAB world0) 0)) = [200, 300]"
  "map tx_type (transactions (objs (run callsAB world0) (Suc 0))) = [DEPOSIT, INTEREST]"
  "map amount (transactions (objs (run callsAB world0) (Suc 0))) = [300, 39]"
  "openings callsAB = [500, 1000]"
  "transactions (objs (run callsAB world0) (Suc 0)) =
     [\<lparr>accountId = ''u-b'', tx_type = DEPOSIT, amount = 300,
       description = ''Transfer from A''\<rparr>,
      \<lparr>accountId = ''u-b'', tx_type = INTEREST, amount = 39,
       description = ''Interest Credited''\<rparr>]"
  by (simp_all add: callsAB_def run_def world0_def createAccount_def Let_def
      BankAccount_new_def executeCommand_def call_def deposit_cases withdraw_cases
      applyInterestToAll_def applyInterest_cases rate_def)

lemma rejected_command_not_on_history:
  "fst (executeCommand (WithdrawCommand 0 800)
     (run (take 3 callsAB) world0)) = Some (InsufficientFunds 700 800)"
  "WithdrawCommand 0 800 \<notin> set (history (run callsAB world0))"
  by (simp_all add: callsAB_run)
    (simp add: callsAB_def run_def world0_def createAccount_def Let_def
      BankAccount_new_def executeCommand_def call_def deposit_cases withdraw_cases)

section \<open>Claims\<close>

text \<open>
  C1 (as amended). With an empty history \<^verbatim>\<open>undoLastCommand\<close> returns normally, without
  any error, and leaves the whole state (every account, every transaction log and the
  history) as it was.
\<close>

theorem undoLastCommand_empty:
  "history s = [] \<Longrightarrow> undoLastCommand s = (None, s)"
  by (simp add: undoLastCommand_def)

theorem undoLastCommand_empty_witness:
  "history world0 = [] \<and> undoLastCommand world0 = (None, world0)"
  using undoLastCommand_empty [of world0] by (simp add: world0_def)

text \<open>
  C1 as stated asks for a failure. On the fresh invoker, whose history is empty, the call
  does not throw.
\<close>

theorem undoLastCommand_empty_no_error:
  "history world0 = [] \<and> fst (undoLastCommand world0) = None"
  by (simp add: undoLastCommand_def world0_def)

text \<open>
  C2 (as amended). An account constructed with initial balance \<open>b0\<close> starts with that
  balance and an empty log, and after any calls of \<^verbatim>\<open>deposit\<close>, \<^verbatim>\<open>withdraw\<close> and
  \<^verbatim>\<open>applyInterest\<close> its balance is the running total of its log from \<open>b0\<close>: the
  recorded amounts applied to \<open>b0\<close> one at a time in log order, added for a deposit or
  an interest credit and subtracted for a withdrawal. In a run from a fresh invoker
  this holds of every account the run opened, with the initial balance its
  \<^verbatim>\<open>createAccount\<close> call gave.
\<close>

theorem balance_running_total:
  "(account_state b0 acc \<longrightarrow> balance acc = runningBalance b0 (transactions acc)) \<and>
   (nxt s0 = 0 \<and> r < length (openings calls) \<longrightarrow>
      balance (objs (run calls s0) r) =
        runningBalance (openings calls ! r) (transactions (objs (run calls s0) r)))"
  using account_state_running run_account_state by blast

theorem balance_running_total_witness:
  "account_state 500 (snd (withdraw 200 ''Withdraw'' accA)) \<and>
   balance (snd (withdraw 200 ''Withdraw'' accA)) = 300 \<and>
   runningBalance 500 (transactions (snd (withdraw 200 ''Withdraw'' accA))) = 500 - 200 \<and>
   nxt world0 = 0 \<and> (1::nat) < length (openings callsAB) \<and> openings callsAB ! 1 = 1000 \<and>
   balance (objs (run callsAB world0) 1) = 1339 \<and>
   balance (objs (run callsAB world0) 1) =
     runningBalance 1000 (transactions (objs (run callsAB world0) 1))"
proof -
  have "account_state 500 accA"
    unfolding accA_def by (rule account_state.constructed)
  then have st: "account_state 500 (snd (withdraw 200 ''Withdraw'' accA))"
    by (rule account_state.withdrawn)
  have b: "balance (snd (withdraw 200 ''Withdraw'' accA)) = 300"
    by (simp add: withdraw_cases accA_def BankAccount_new_def)
  have n: "nxt world0 = 0" by (simp add: world0_def)
  have l: "(1::nat) < length (openings callsAB)" by (simp add: callsAB_run)
  from st b n l
    balance_running_total [where ?b0.0 = 500
      and acc = "snd (withdraw 200 ''Withdraw'' accA)" and ?s0.0 = world0 and r = 1
      and calls = callsAB]
  show ?thesis by (simp add: callsAB_run runningBalance_def applyTransaction_def)
qed

text \<open>
  C2 as stated fails at creation: an account opened with 1000 has balance 1000 and an
  empty log, whose signed sum is 0.
\<close>

theorem balance_not_signedSum_at_creation:
  "balance (BankAccount_new ''u-b'' ''B'' SAVINGS 1000) = 1000 \<and>
   signedSum (transactions (BankAccount_new ''u-b'' ''B'' SAVINGS 1000)) = 0 \<and>
   balance (BankAccount_new ''u-b'' ''B'' SAVINGS 1000) \<noteq>
     signedSum (transactions (BankAccount_new ''u-b'' ''B'' SAVINGS 1000))"
  by (simp add: BankAccount_new_def signedSum_def)

text \<open>
  C3 (as amended). A transfer between two different accounts, of a positive amount
  that the source's balance covers, returns normally, takes the amount from the source,
  adds it to the destination and appends one transaction to each. A transfer of more
  than the source's balance throws out of the withdraw leg: the outcome is that of the
  withdraw call alone and the store is unchanged.
\<close>

theorem transfer_spec:
  "(fromAccount \<noteq> toAccount \<and> 0 < amt \<and> amt \<le> balance (h fromAccount) \<longrightarrow>
      fst (execute (TransferCommand fromAccount toAccount amt) h) = None \<and>
      balance (snd (execute (TransferCommand fromAccount toAccount amt) h) fromAccount) =
        balance (h fromAccount) - amt \<and>
      balance (snd (execute (TransferCommand fromAccount toAccount amt) h) toAccount) =
        balance (h toAccount) + amt \<and>
      transactions (snd (execute (TransferCommand fromAccount toAccount amt) h) fromAccount) =
        transactions (h fromAccount) @
          [\<lparr>accountId = acc_id (h fromAccount), tx_type = WITHDRAW, amount = amt,
            description = ''Transfer to '' @ name (h toAccount)\<rparr>] \<and>
      transactions (snd (execute (TransferCommand fromAccount toAccount amt) h) toAccount) =
        transactions (h toAccount) @
          [\<lparr>accountId = acc_id (h toAccount), tx_type = DEPOSIT, amount = amt,
            description = ''Transfer from '' @ name (h fromAccount)\<rparr>]) \<and>
   (balance (h fromAccount) < amt \<longrightarrow>
      fst (execute (TransferCommand fromAccount toAccount amt) h) \<noteq> None \<and>
      execute (TransferCommand fromAccount toAccount amt) h =
        call fromAccount (withdraw amt (''Transfer to '' @ name (h toAccount))) h \<and>
      snd (execute (TransferCommand fromAccount toAccount amt) h) = h)"
  by (simp add: call_def withdraw_cases deposit_cases)

theorem transfer_spec_witness:
  "(0::nat) \<noteq> 1 \<and> (0::real) < 300 \<and> 300 \<le> balance (objs worldAB 0) \<and>
   fst (execute (TransferCommand 0 1 300) (objs worldAB)) = None \<and>
   balance (snd (execute (TransferCommand 0 1 300) (objs worldAB)) 0) = 200 \<and>
   balance (snd (execute (TransferCommand 0 1 300) (objs worldAB)) 1) = 1300 \<and>
   balance (objs worldAB 0) < 501 \<and>
   fst (execute (TransferCommand 0 1 501) (objs worldAB)) \<noteq> None \<and>
   snd (execute (TransferCommand 0 1 501) (objs worldAB)) = objs worldAB"
  using transfer_spec [where fromAccount = 0 and toAccount = 1 and amt = 300 and h = "objs worldAB"]
    transfer_spec [where fromAccount = 0 and toAccount = 1 and amt = 501 and h = "objs worldAB"]
  by (simp add: worldAB_simps accA_def BankAccount_new_def call_def withdraw_cases)

text \<open>
  C3 as stated covers a transfer whose source and destination are one account, which
  \<^verbatim>\<open>TransferCommand\<close> accepts: the balance is then unchanged, not decreased, and the
  account gets two new transactions.
\<close>

theorem transfer_same_account:
  "balance (objs worldAB 0) = 500 \<and> transactions (objs worldAB 0) = [] \<and>
   fst (execute (TransferCommand 0 0 200) (objs worldAB)) = None \<and>
   balance (snd (execute (TransferCommand 0 0 200) (objs worldAB)) 0) = 500 \<and>
   balance (snd (execute (TransferCommand 0 0 200) (objs worldAB)) 0) \<noteq>
     balance (objs worldAB 0) - 200 \<and>
   length (transactions (snd (execute (TransferCommand 0 0 200) (objs worldAB)) 0)) = 2"
  by (simp add: call_def withdraw_cases deposit_cases worldAB_simps accA_def BankAccount_new_def)

text \<open>
  C4. \<^verbatim>\<open>withdraw\<close> throws "Withdraw amount must be positive" when the amount is at most
  0, and "Insufficient funds" when a positive amount exceeds the balance; whenever the
  amount exceeds the balance it throws, and a throwing call leaves the account as it
  was. A call that returns has decreased the balance by the amount, appended one
  \<open>WITHDRAW\<close> transaction of that amount, and left a balance that is not negative.
\<close>

theorem withdraw_spec:
  "(amt \<le> 0 \<longrightarrow> withdraw amt d acc = (Some WithdrawNotPositive, acc)) \<and>
   (0 < amt \<and> balance acc < amt \<longrightarrow>
      withdraw amt d acc = (Some (InsufficientFunds (balance acc) amt), acc)) \<and>
   (balance acc < amt \<longrightarrow> fst (withdraw amt d acc) \<noteq> None \<and> snd (withdraw amt d acc) = acc) \<and>
   (fst (withdraw amt d acc) = None \<longrightarrow>
      balance (snd (withdraw amt d acc)) = balance acc - amt \<and>
      transactions (snd (withdraw amt d acc)) = transactions acc @
        [\<lparr>accountId = acc_id acc, tx_type = WITHDRAW, amount = amt, description = d\<rparr>] \<and>
      0 \<le> balance (snd (withdraw amt d acc)))"
  by (simp add: withdraw_cases)

theorem withdraw_spec_witness:
  "withdraw (-1) ''Withdraw'' accA = (Some WithdrawNotPositive, accA) \<and>
   withdraw 501 ''Withdraw'' accA = (Some (InsufficientFunds 500 501), accA) \<and>
   fst (withdraw 200 ''Withdraw'' accA) = None \<and>
   balance (snd (withdraw 200 ''Withdraw'' accA)) = 300 \<and>
   transactions (snd (withdraw 200 ''Withdraw'' accA)) =
     [\<lparr>accountId = ''u-a'', tx_type = WITHDRAW, amount = 200, description = ''Withdraw''\<rparr>]"
  using withdraw_spec [where amt = "-1" and d = "''Withdraw''" and acc = accA]
        withdraw_spec [where amt = 501 and d = "''Withdraw''" and acc = accA]
        withdraw_spec [where amt = 200 and d = "''Withdraw''" and acc = accA]
  by (simp add: accA_def BankAccount_new_def withdraw_def)

text \<open>
  C5. \<^verbatim>\<open>executeCommand\<close> pushes the command exactly when its \<^verbatim>\<open>execute\<close> returned,
  and the state it then leaves is the one \<^verbatim>\<open>execute\<close> left with the command on top of
  the history; when \<^verbatim>\<open>execute\<close> throws, the same error reaches the caller and the
  state, history included, is unchanged. So in a run from an invoker with an empty
  history, every command on the history was pushed by an \<^verbatim>\<open>executeCommand\<close> call of
  that run which returned normally in the state the run had reached.
\<close>

theorem executeCommand_history:
  "(fst (execute c (objs s)) = None \<longrightarrow>
      executeCommand c s =
        (None, s\<lparr>objs := snd (execute c (objs s)), history := history s @ [c]\<rparr>)) \<and>
   (fst (execute c (objs s)) = Some e \<longrightarrow> executeCommand c s = (Some e, s)) \<and>
   fst (executeCommand c s) = fst (execute c (objs s)) \<and>
   (history (snd (executeCommand c s)) = history s @ [c]) =
     (fst (execute c (objs s)) = None) \<and>
   (history s0 = [] \<and> c' \<in> set (history (run calls s0)) \<longrightarrow>
      (\<exists>pre post. calls = pre @ ExecuteCommand c' # post \<and>
         fst (executeCommand c' (run pre s0)) = None))"
proof (intro conjI impI)
  assume "history s0 = [] \<and> c' \<in> set (history (run calls s0))"
  then show "\<exists>pre post. calls = pre @ ExecuteCommand c' # post \<and>
      fst (executeCommand c' (run pre s0)) = None"
    using history_run [of c' calls s0] by simp
qed (simp_all add: executeCommand_cases split: option.splits)

theorem executeCommand_history_witness:
  "executeCommand (DepositCommand 0 200) worldAB =
     (None, worldAB\<lparr>objs := snd (execute (DepositCommand 0 200) (objs worldAB)),
                     history := [DepositCommand 0 200]\<rparr>) \<and>
   balance (objs (snd (executeCommand (DepositCommand 0 200) worldAB)) 0) = 700 \<and>
   fst (execute (WithdrawCommand 0 600) (objs worldAB)) = Some (InsufficientFunds 500 600) \<and>
   executeCommand (WithdrawCommand 0 600) worldAB = (Some (InsufficientFunds 500 600), worldAB) \<and>
   history world0 = [] \<and>
   history (run callsAB world0) = [DepositCommand 0 200, TransferCommand 0 1 300] \<and>
   (\<exists>pre post. callsAB = pre @ ExecuteCommand (TransferCommand 0 1 300) # post \<and>
      fst (executeCommand (TransferCommand 0 1 300) (run pre world0)) = None)"
proof -
  have ok: "fst (execute (DepositCommand 0 200) (objs worldAB)) = None"
    by (simp add: call_def deposit_def)
  have bad: "fst (execute (WithdrawCommand 0 600) (objs worldAB)) = Some (InsufficientFunds 500 600)"
    by (simp add: call_def withdraw_def worldAB_simps accA_def BankAccount_new_def)
  from ok executeCommand_history [where c = "DepositCommand 0 200" and s = worldAB]
  have d: "executeCommand (DepositCommand 0 200) worldAB =
     (None, worldAB\<lparr>objs := snd (execute (DepositCommand 0 200) (objs worldAB)),
                     history := [DepositCommand 0 200]\<rparr>)"
    by (simp add: worldAB_simps)
  have b: "balance (objs (snd (executeCommand (DepositCommand 0 200) worldAB)) 0) = 700"
    unfolding d by (simp add: call_def deposit_cases worldAB_simps accA_def BankAccount_new_def)
  from bad
    executeCommand_history [where c = "WithdrawCommand 0 600" and s = worldAB
      and e = "InsufficientFunds 500 600"]
  have f: "executeCommand (WithdrawCommand 0 600) worldAB = (Some (InsufficientFunds 500 600), worldAB)"
    by simp
  have h0: "history world0 = []" by (simp add: world0_def)
  have h: "history (run callsAB world0) = [DepositCommand 0 200, TransferCommand 0 1 300]"
    by (rule callsAB_run)
  from h0 h have m: "history world0 = [] \<and>
      TransferCommand 0 1 300 \<in> set (history (run callsAB world0))"
    by simp
  have "\<exists>pre post. callsAB = pre @ ExecuteCommand (TransferCommand 0 1 300) # post \<and>
      fst (executeCommand (TransferCommand 0 1 300) (run pre world0)) = None"
    by (rule executeCommand_history [where ?s0.0 = world0 and calls = callsAB
          and c' = "TransferCommand 0 1 300", THEN conjunct2, THEN conjunct2, THEN conjunct2,
          THEN conjunct2, THEN mp, OF m])
  with d b bad f h0 h show ?thesis by simp
qed

text \<open>
  C6. When the \<^verbatim>\<open>undo\<close> of the popped command throws, \<^verbatim>\<open>undoLastCommand\<close> throws the
  same error and leaves the state as it was before the call: the command is back on
  top of the history and every account is unchanged. In particular the \<^verbatim>\<open>undo\<close> of a
  deposit of a positive amount throws "Insufficient funds" when the balance is below
  the amount.
\<close>

theorem undoLastCommand_failure:
  "(history s \<noteq> [] \<and> fst (undo (last (history s)) (objs s)) = Some e \<longrightarrow>
      undoLastCommand s = (Some e, s)) \<and>
   (0 < amt \<and> balance (h account) < amt \<longrightarrow>
      undo (DepositCommand account amt) h = (Some (InsufficientFunds (balance (h account)) amt), h))"
  by (simp add: undoLastCommand_cases call_def withdraw_cases)

theorem undoLastCommand_failure_witness:
  "history (snd (executeCommand (DepositCommand 0 3) worldNeg)) \<noteq> [] \<and>
   undoLastCommand (snd (executeCommand (DepositCommand 0 3) worldNeg)) =
     (Some (InsufficientFunds (-2) 3), snd (executeCommand (DepositCommand 0 3) worldNeg)) \<and>
   balance (objs (snd (executeCommand (DepositCommand 0 3) worldNeg)) 0) = -2 \<and>
   undo (DepositCommand 0 3) (objs (snd (executeCommand (DepositCommand 0 3) worldNeg))) =
     (Some (InsufficientFunds (-2) 3), objs (snd (executeCommand (DepositCommand 0 3) worldNeg)))"
proof -
  let ?s = "snd (executeCommand (DepositCommand 0 3) worldNeg)"
  have h: "history ?s = [DepositCommand 0 3]"
    by (simp add: executeCommand_def call_def deposit_def worldNeg_simps)
  have b: "balance (objs ?s 0) = -2"
    by (simp add: executeCommand_def call_def deposit_def worldNeg_simps addTransaction_def
        BankAccount_new_def)
  from b undoLastCommand_failure [where h = "objs ?s" and account = 0 and amt = 3]
  have u: "undo (DepositCommand 0 3) (objs ?s) = (Some (InsufficientFunds (-2) 3), objs ?s)"
    by simp
  from h u undoLastCommand_failure [where s = ?s and e = "InsufficientFunds (-2) 3"]
  have "undoLastCommand ?s = (Some (InsufficientFunds (-2) 3), ?s)"
    by simp
  with h b u show ?thesis by simp
qed




text \<open>
  C8. After one \<^verbatim>\<open>applyInterestToAll\<close>, in a state whose registry holds each account
  object once (as every reachable state does), a registered account with the savings
  strategy and balance \<open>b\<close> has gained \<open>b * 0.03\<close> and one \<open>INTEREST\<close> transaction of that
  amount when \<open>b * 0.03\<close> is positive; a registered account with the checking strategy
  is unchanged; the history is unchanged, so an \<^verbatim>\<open>undoLastCommand\<close> that follows acts on
  the same command as before, and on nothing when the history is empty. The strategy is
  the one the constructor chose from the account's type.
\<close>

theorem applyInterestToAll_spec:
  assumes "distinct (map snd (accounts s))" and "account \<in> snd ` set (accounts s)"
  shows
   "(interestStrategy (objs s account) = SavingsInterestStrategy \<and>
     0 < balance (objs s account) * 0.03 \<longrightarrow>
       balance (objs (applyInterestToAll s) account) =
         balance (objs s account) + balance (objs s account) * 0.03 \<and>
       transactions (objs (applyInterestToAll s) account) = transactions (objs s account) @
         [\<lparr>accountId = acc_id (objs s account), tx_type = INTEREST,
           amount = balance (objs s account) * 0.03, description = ''Interest Credited''\<rparr>]) \<and>
    (interestStrategy (objs s account) = CheckingInterestStrategy \<longrightarrow>
       objs (applyInterestToAll s) account = objs s account) \<and>
    history (applyInterestToAll s) = history s \<and>
    (history s = [] \<longrightarrow> undoLastCommand (applyInterestToAll s) = (None, applyInterestToAll s)) \<and>
    (account_state b0 (objs s account) \<longrightarrow>
       interestStrategy (objs s account) =
         (if acc_type (objs s account) = SAVINGS then SavingsInterestStrategy
          else CheckingInterestStrategy))"
proof -
  have o: "objs (applyInterestToAll s) account = snd (applyInterest (objs s account))"
    using assms by (simp add: applyInterestToAll_objs)
  have h: "history (applyInterestToAll s) = history s"
    by (simp add: applyInterestToAll_def)
  show ?thesis
    unfolding o h
    by (simp add: applyInterest_cases rate_def undoLastCommand_cases h account_state_strategy)
qed

theorem applyInterestToAll_spec_witness:
  "distinct (map snd (accounts worldAB)) \<and> 0 \<in> snd ` set (accounts worldAB) \<and>
   1 \<in> snd ` set (accounts worldAB) \<and>
   acc_type (objs worldAB 1) = SAVINGS \<and>
   interestStrategy (objs worldAB 1) = SavingsInterestStrategy \<and>
   balance (objs worldAB 1) = 1000 \<and>
   balance (objs (applyInterestToAll worldAB) 1) = 1030 \<and>
   transactions (objs (applyInterestToAll worldAB) 1) =
     [\<lparr>accountId = ''u-b'', tx_type = INTEREST, amount = 30,
       description = ''Interest Credited''\<rparr>] \<and>
   acc_type (objs worldAB 0) = CHECKING \<and>
   interestStrategy (objs worldAB 0) = CheckingInterestStrategy \<and>
   objs (applyInterestToAll worldAB) 0 = objs worldAB 0 \<and>
   history worldAB = [] \<and>
   history (applyInterestToAll worldAB) = [] \<and>
   undoLastCommand (applyInterestToAll worldAB) = (None, applyInterestToAll worldAB) \<and>
   account_state 1000 (objs worldAB 1)"
proof -
  have d: "distinct (map snd (accounts worldAB))" by (simp add: worldAB_simps)
  have a0: "0 \<in> snd ` set (accounts worldAB)" by (simp add: worldAB_simps)
  have a1: "1 \<in> snd ` set (accounts worldAB)" by (simp add: worldAB_simps)
  have st: "account_state 1000 (objs worldAB 1)"
    by (simp add: worldAB_simps account_state.constructed)
  from applyInterestToAll_spec [OF d a0, where ?b0.0 = 500]
    applyInterestToAll_spec [OF d a1, where ?b0.0 = 1000] d a0 a1 st
  show ?thesis by (simp add: worldAB_simps accA_def BankAccount_new_def)
qed

text \<open>
  C9. \<^verbatim>\<open>forceBalanceChange\<close> is a public method without any check: for every amount it
  adds the amount to the balance and changes no other field, the transaction log
  included.
\<close>

theorem forceBalanceChange_spec:
  "balance (forceBalanceChange amt acc) = balance acc + amt \<and>
   transactions (forceBalanceChange amt acc) = transactions acc \<and>
   acc_id (forceBalanceChange amt acc) = acc_id acc \<and>
   name (forceBalanceChange amt acc) = name acc \<and>
   acc_type (forceBalanceChange amt acc) = acc_type acc \<and>
   interestStrategy (forceBalanceChange amt acc) = interestStrategy acc"
  by (simp add: forceBalanceChange_def)

text \<open>
  C10. A transfer that returned normally has appended a \<open>WITHDRAW\<close> transaction to the
  source and a \<open>DEPOSIT\<close> transaction to the destination, told apart from a plain
  withdrawal or deposit by the description only. \<^verbatim>\<open>executeCommand\<close>, \<^verbatim>\<open>undoLastCommand\<close>
  and \<^verbatim>\<open>applyInterestToAll\<close> only append transactions of kinds \<open>DEPOSIT\<close>, \<open>WITHDRAW\<close>
  and \<open>INTEREST\<close> to any account, a new account has an empty log, and so no account of
  a reachable state has a transaction of kind \<open>TRANSFER_IN\<close> or \<open>TRANSFER_OUT\<close>.
\<close>

theorem transfer_kinds:
  "(fst (execute (TransferCommand fromAccount toAccount amt) h) = None \<longrightarrow>
      transactions (snd (execute (TransferCommand fromAccount toAccount amt) h) fromAccount) =
        transactions (h fromAccount) @
          \<lparr>accountId = acc_id (h fromAccount), tx_type = WITHDRAW, amount = amt,
            description = ''Transfer to '' @ name (h toAccount)\<rparr> #
          (if fromAccount = toAccount
           then [\<lparr>accountId = acc_id (h toAccount), tx_type = DEPOSIT, amount = amt,
                   description = ''Transfer from '' @ name (h fromAccount)\<rparr>]
           else []) \<and>
      transactions (snd (execute (TransferCommand fromAccount toAccount amt) h) toAccount) =
        transactions (h toAccount) @
          (if fromAccount = toAccount
           then [\<lparr>accountId = acc_id (h fromAccount), tx_type = WITHDRAW, amount = amt,
                   description = ''Transfer to '' @ name (h toAccount)\<rparr>]
           else []) @
          [\<lparr>accountId = acc_id (h toAccount), tx_type = DEPOSIT, amount = amt,
            description = ''Transfer from '' @ name (h fromAccount)\<rparr>]) \<and>
   appends_only [DEPOSIT, WITHDRAW, INTEREST] (objs s r) (objs (snd (executeCommand c s)) r) \<and>
   appends_only [DEPOSIT, WITHDRAW, INTEREST] (objs s r) (objs (snd (undoLastCommand s)) r) \<and>
   appends_only [DEPOSIT, WITHDRAW, INTEREST] (objs s r) (objs (applyInterestToAll s) r) \<and>
   transactions (objs (snd (createAccount uid nm ty b s)) (fst (createAccount uid nm ty b s))) = [] \<and>
   (reachable s \<and> r < nxt s \<longrightarrow> no_transfer_kind (objs s r))"
proof (intro conjI impI)
  assume ok: "fst (execute (TransferCommand fromAccount toAccount amt) h) = None"
  then have a: "0 < amt" "amt \<le> balance (h fromAccount)"
    by (auto simp: call_def withdraw_cases split: if_splits)
  from a show "transactions (snd (execute (TransferCommand fromAccount toAccount amt) h) fromAccount) =
        transactions (h fromAccount) @
          \<lparr>accountId = acc_id (h fromAccount), tx_type = WITHDRAW, amount = amt,
            description = ''Transfer to '' @ name (h toAccount)\<rparr> #
          (if fromAccount = toAccount
           then [\<lparr>accountId = acc_id (h toAccount), tx_type = DEPOSIT, amount = amt,
                   description = ''Transfer from '' @ name (h fromAccount)\<rparr>]
           else [])"
    by (simp add: call_def withdraw_cases deposit_cases)
  from a show "transactions (snd (execute (TransferCommand fromAccount toAccount amt) h) toAccount) =
        transactions (h toAccount) @
          (if fromAccount = toAccount
           then [\<lparr>accountId = acc_id (h fromAccount), tx_type = WITHDRAW, amount = amt,
                   description = ''Transfer to '' @ name (h toAccount)\<rparr>]
           else []) @
          [\<lparr>accountId = acc_id (h toAccount), tx_type = DEPOSIT, amount = amt,
            description = ''Transfer from '' @ name (h fromAccount)\<rparr>]"
    by (simp add: call_def withdraw_cases deposit_cases)
next
  assume "reachable s \<and> r < nxt s"
  then show "no_transfer_kind (objs s r)"
    using reachable_account_state account_state_no_transfer_kind by blast
qed (simp_all add: evolves_appends_only executeCommand_evolves undoLastCommand_evolves
    applyInterestToAll_evolves createAccount_def Let_def BankAccount_new_def)

theorem transfer_kinds_witness:
  "fst (execute (TransferCommand 0 1 300) (objs worldAB)) = None \<and>
   map tx_type (transactions (snd (execute (TransferCommand 0 1 300) (objs worldAB)) 0)) =
     [WITHDRAW] \<and>
   map tx_type (transactions (snd (execute (TransferCommand 0 1 300) (objs worldAB)) 1)) =
     [DEPOSIT] \<and>
   reachable (snd (executeCommand (TransferCommand 0 1 300) worldAB)) \<and>
   (1::nat) < nxt (snd (executeCommand (TransferCommand 0 1 300) worldAB)) \<and>
   no_transfer_kind (objs (snd (executeCommand (TransferCommand 0 1 300) worldAB)) 1)"
proof -
  let ?s = "snd (executeCommand (TransferCommand 0 1 300) worldAB)"
  have ok: "fst (execute (TransferCommand 0 1 300) (objs worldAB)) = None"
    by (simp add: call_def withdraw_cases deposit_cases worldAB_simps accA_def
        BankAccount_new_def)
  have r: "reachable ?s" by (intro reachable.executed reachable_worldAB)
  have n: "(1::nat) < nxt ?s" by (simp add: nxt_simps worldAB_simps)
  from ok r n
    transfer_kinds [where fromAccount = 0 and toAccount = 1 and amt = 300
      and h = "objs worldAB" and s = ?s and r = 1]
  show ?thesis by (simp add: worldAB_simps accA_def BankAccount_new_def)
qed

end
